theory Spec2Isabelle
  imports Complex_Main
begin

section \<open>JavaScript numbers\<close>

text \<open>
  A JavaScript number is modelled as a real number or one of the three special values.
  Arithmetic on the finite values is exact (no rounding) and there is a single zero.
  Every operation below follows the IEEE rules of the language for the special values.
\<close>

datatype jsnum = Num real | PosInf | NegInf | NaN

fun jsadd :: "jsnum \<Rightarrow> jsnum \<Rightarrow> jsnum" where
  "jsadd NaN y = NaN"
| "jsadd x NaN = NaN"
| "jsadd (Num a) (Num b) = Num (a + b)"
| "jsadd PosInf NegInf = NaN"
| "jsadd NegInf PosInf = NaN"
| "jsadd PosInf y = PosInf"
| "jsadd x PosInf = PosInf"
| "jsadd NegInf y = NegInf"
| "jsadd x NegInf = NegInf"

fun jsneg :: "jsnum \<Rightarrow> jsnum" where
  "jsneg (Num a) = Num (- a)"
| "jsneg PosInf = NegInf"
| "jsneg NegInf = PosInf"
| "jsneg NaN = NaN"

definition jssub :: "jsnum \<Rightarrow> jsnum \<Rightarrow> jsnum" where
  "jssub x y = jsadd x (jsneg y)"

fun jsmul :: "jsnum \<Rightarrow> jsnum \<Rightarrow> jsnum" where
  "jsmul NaN y = NaN"
| "jsmul x NaN = NaN"
| "jsmul (Num a) (Num b) = Num (a * b)"
| "jsmul PosInf (Num b) = (if b = 0 then NaN else if 0 < b then PosInf else NegInf)"
| "jsmul NegInf (Num b) = (if b = 0 then NaN else if 0 < b then NegInf else PosInf)"
| "jsmul (Num a) PosInf = (if a = 0 then NaN else if 0 < a then PosInf else NegInf)"
| "jsmul (Num a) NegInf = (if a = 0 then NaN else if 0 < a then NegInf else PosInf)"
| "jsmul PosInf PosInf = PosInf"
| "jsmul NegInf NegInf = PosInf"
| "jsmul PosInf NegInf = NegInf"
| "jsmul NegInf PosInf = NegInf"

fun jsdiv :: "jsnum \<Rightarrow> jsnum \<Rightarrow> jsnum" where
  "jsdiv NaN y = NaN"
| "jsdiv x NaN = NaN"
| "jsdiv (Num a) (Num b) =
     (if b = 0 then (if a = 0 then NaN else if 0 < a then PosInf else NegInf)
      else Num (a / b))"
| "jsdiv (Num a) PosInf = Num 0"
| "jsdiv (Num a) NegInf = Num 0"
| "jsdiv PosInf (Num b) = (if b < 0 then NegInf else PosInf)"
| "jsdiv NegInf (Num b) = (if b < 0 then PosInf else NegInf)"
| "jsdiv PosInf y = NaN"
| "jsdiv NegInf y = NaN"

fun jssqrt :: "jsnum \<Rightarrow> jsnum" where
  "jssqrt (Num a) = (if a < 0 then NaN else Num (sqrt a))"
| "jssqrt PosInf = PosInf"
| "jssqrt NegInf = NaN"
| "jssqrt NaN = NaN"

text \<open>The comparison \<open>x > y\<close>: false as soon as one side is NaN.\<close>

fun jsgt :: "jsnum \<Rightarrow> jsnum \<Rightarrow> bool" where
  "jsgt NaN y = False"
| "jsgt x NaN = False"
| "jsgt (Num a) (Num b) = (b < a)"
| "jsgt PosInf PosInf = False"
| "jsgt PosInf y = True"
| "jsgt x PosInf = False"
| "jsgt NegInf y = False"
| "jsgt x NegInf = True"

text \<open>\<open>Math.max\<close> and \<open>Math.min\<close> of two arguments: NaN if either argument is NaN.\<close>

fun Math_max :: "jsnum \<Rightarrow> jsnum \<Rightarrow> jsnum" where
  "Math_max NaN y = NaN"
| "Math_max x NaN = NaN"
| "Math_max x y = (if jsgt y x then y else x)"

fun Math_min :: "jsnum \<Rightarrow> jsnum \<Rightarrow> jsnum" where
  "Math_min NaN y = NaN"
| "Math_min x NaN = NaN"
| "Math_min x y = (if jsgt x y then y else x)"

section \<open>Strings\<close>

text \<open>
  A string is a list of code units; the model covers the code units 0 to 255, one
  \<open>char\<close> each. \<open>charCodeAt\<close> is \<open>of_char\<close>.
\<close>

text \<open>White space as matched by \<open>\s\<close> and stripped by \<open>trim\<close> (code units below 256).\<close>

definition is_space :: "char \<Rightarrow> bool" where
  "is_space c = (of_char c \<in> {9, 10, 11, 12, 13, 32, 160 :: nat})"

text \<open>\<open>toLowerCase\<close>: A to Z and the upper-case letters of Latin-1 move up by 32.\<close>

definition lower_char :: "char \<Rightarrow> char" where
  "lower_char c = (let n = of_char c :: nat in
     if (65 \<le> n \<and> n \<le> 90) \<or> (192 \<le> n \<and> n \<le> 222 \<and> n \<noteq> 215)
     then char_of (n + 32) else c)"

definition toLowerCase :: "string \<Rightarrow> string" where
  "toLowerCase s = map lower_char s"

text \<open>The decimal digits of an array index, as string concatenation \<open>word + index\<close> writes them.\<close>

function nat_to_string :: "nat \<Rightarrow> string" where
  "nat_to_string n =
     (if n < 10 then [''0123456789'' ! n]
      else nat_to_string (n div 10) @ [''0123456789'' ! (n mod 10)])"
  by pat_completeness auto
termination
  by (relation "measure id") auto

declare nat_to_string.simps [simp del]

text \<open>
  \<open>text.split(/\s+/)\<close>: every maximal run of white space is one separator; a separator
  at the start or the end of the text leaves an empty token there, and the empty text
  gives the single token \<open>""\<close>. \<open>cur\<close> is the token being read.
\<close>

function split_ws :: "string \<Rightarrow> string \<Rightarrow> string list" where
  "split_ws cur [] = [cur]"
| "split_ws cur (c # cs) =
     (if is_space c then cur # split_ws [] (dropWhile is_space cs)
      else split_ws (cur @ [c]) cs)"
  by pat_completeness auto
termination
  by (relation "measure (\<lambda>(cur, s). length s)")
     (auto intro: le_imp_less_Suc length_dropWhile_le)

section \<open>Hasher\<close>

text \<open>\<open>ToInt32\<close>: wrap an integer into the signed 32-bit range.\<close>

definition to_int32 :: "int \<Rightarrow> int" where
  "to_int32 x = (x + 2 ^ 31) mod 2 ^ 32 - 2 ^ 31"

text \<open>
  The loop of \<open>simpleHash\<close>: \<open>hash = ((hash << 5) - hash) + char; hash = hash & hash\<close>.
  The shift yields a 32-bit integer, the subtraction and addition are exact, and
  \<open>hash & hash\<close> wraps the sum to 32 bits again.
\<close>

fun simpleHash_loop :: "int \<Rightarrow> string \<Rightarrow> int" where
  "simpleHash_loop hash [] = hash"
| "simpleHash_loop hash (c # cs) =
     simpleHash_loop (to_int32 ((to_int32 (hash * 32) - hash) + of_char c)) cs"

definition simpleHash :: "string \<Rightarrow> int" where
  "simpleHash str = \<bar>simpleHash_loop 0 str\<bar>"

section \<open>Embedder\<close>

text \<open>
  The \<open>forEach\<close> of \<open>generateMockEmbedding\<close>, with the array \<open>embedding\<close> passed along.
  Its entries are finite sums of values in [0, 1), so they are kept as reals.
\<close>

fun accumulate :: "real list \<Rightarrow> nat \<Rightarrow> string list \<Rightarrow> real list" where
  "accumulate embedding index [] = embedding"
| "accumulate embedding index (word # words) =
     (let hash = simpleHash (word @ nat_to_string index);
          normalized = real_of_int (hash mod 1000) / 1000;
          dimension = nat (hash mod int (length embedding))
      in accumulate (embedding[dimension := embedding ! dimension + normalized])
           (index + 1) words)"

definition words_of :: "string \<Rightarrow> string list" where
  "words_of text = split_ws [] (toLowerCase text)"

text \<open>The array before normalisation, and its magnitude.\<close>

definition raw_embedding :: "string \<Rightarrow> real list" where
  "raw_embedding text = accumulate (replicate 384 0) 0 (words_of text)"

definition magnitude :: "real list \<Rightarrow> real" where
  "magnitude embedding = sqrt (foldl (\<lambda>sum val. sum + val * val) 0 embedding)"

definition generateMockEmbedding :: "string \<Rightarrow> jsnum list" where
  "generateMockEmbedding text =
     (let embedding = raw_embedding text
      in map (\<lambda>val. jsdiv (Num val) (Num (magnitude embedding))) embedding)"

section \<open>Similarity scorer\<close>

text \<open>The \<open>for\<close> loop of \<open>cosineSimilarity\<close>; the state is (dotProduct, normA, normB).\<close>

function cosine_loop ::
  "jsnum list \<Rightarrow> jsnum list \<Rightarrow> nat \<Rightarrow> jsnum \<times> jsnum \<times> jsnum \<Rightarrow> jsnum \<times> jsnum \<times> jsnum" where
  "cosine_loop a b i (dotProduct, normA, normB) =
     (if i < length a
      then cosine_loop a b (i + 1)
             (jsadd dotProduct (jsmul (a ! i) (b ! i)),
              jsadd normA (jsmul (a ! i) (a ! i)),
              jsadd normB (jsmul (b ! i) (b ! i)))
      else (dotProduct, normA, normB))"
  by pat_completeness auto
termination
  by (relation "measure (\<lambda>(a, b, i, st). length a - i)") auto

declare cosine_loop.simps [simp del]

definition cosineSimilarity :: "jsnum list \<Rightarrow> jsnum list \<Rightarrow> jsnum" where
  "cosineSimilarity a b =
     (if length a \<noteq> length b then Num 0
      else (case cosine_loop a b 0 (Num 0, Num 0, Num 0) of
              (dotProduct, normA, normB) \<Rightarrow>
                jsdiv dotProduct (jsmul (jssqrt normA) (jssqrt normB))))"

text \<open>The Euclidean norm of a vector of numbers, summed left to right.\<close>

definition euclidean_norm :: "jsnum list \<Rightarrow> jsnum" where
  "euclidean_norm v = jssqrt (foldl (\<lambda>sum val. jsadd sum (jsmul val val)) (Num 0) v)"

section \<open>Arrays\<close>

text \<open>
  \<open>Array.prototype.sort\<close> with a comparison function: the sort is stable, and an element
  moves behind another one only where the comparison function returns a number greater
  than 0 (a NaN it returns counts as 0). For a comparison function that is a consistent
  order on the elements every stable sort gives this result: that is the case for finite
  scores, and for one or two entries whatever their scores are. Where the comparison
  function is not a consistent order (a NaN score among three or more entries), the
  language leaves the order to the implementation; the function below then gives the
  order of this insertion sort, which need not be the order of a given engine, and
  nothing is proved in that case.
\<close>

fun sort_insert :: "('a \<Rightarrow> 'a \<Rightarrow> jsnum) \<Rightarrow> 'a \<Rightarrow> 'a list \<Rightarrow> 'a list" where
  "sort_insert cmp x [] = [x]"
| "sort_insert cmp x (y # ys) =
     (if jsgt (cmp x y) (Num 0) then y # sort_insert cmp x ys else x # y # ys)"

fun array_sort :: "('a \<Rightarrow> 'a \<Rightarrow> jsnum) \<Rightarrow> 'a list \<Rightarrow> 'a list" where
  "array_sort cmp [] = []"
| "array_sort cmp (x # xs) = sort_insert cmp x (array_sort cmp xs)"

text \<open>\<open>xs.slice(0, k)\<close> for an integer \<open>k\<close>: a negative \<open>k\<close> counts from the end.\<close>

definition slice0 :: "'a list \<Rightarrow> int \<Rightarrow> 'a list" where
  "slice0 xs k = (if k < 0 then take (nat (int (length xs) + k)) xs else take (nat k) xs)"

section \<open>Semantic retriever\<close>

record resume =
  r_id :: string
  r_text :: string
  r_embedding :: "jsnum list"

record hit =
  resume_id :: string
  hit_text :: string
  score :: jsnum

definition search_results :: "string \<Rightarrow> resume list \<Rightarrow> hit list" where
  "search_results query resumes =
     (let queryEmbedding = generateMockEmbedding query
      in map (\<lambda>resume.
            \<lparr>resume_id = r_id resume,
             hit_text = take 500 (r_text resume),
             score = cosineSimilarity queryEmbedding (r_embedding resume)\<rparr>) resumes)"

text \<open>\<open>results.sort((a, b) => b.score - a.score).slice(0, k).filter(result => result.score > 0.1)\<close>\<close>

definition semanticSearch :: "string \<Rightarrow> resume list \<Rightarrow> int \<Rightarrow> hit list" where
  "semanticSearch query resumes k =
     filter (\<lambda>result. jsgt (score result) (Num (1 / 10)))
       (slice0 (array_sort (\<lambda>a b. jssub (score b) (score a)) (search_results query resumes)) k)"

section \<open>Job matcher\<close>

text \<open>\<open>requirement.split(/[,:;]/)\<close>: every separator character ends a piece.\<close>

fun split_sep :: "string \<Rightarrow> string \<Rightarrow> string list" where
  "split_sep cur [] = [cur]"
| "split_sep cur (c # cs) =
     (if c \<in> {CHR '','', CHR '':'', CHR '';''} then cur # split_sep [] cs
      else split_sep (cur @ [c]) cs)"

definition trim :: "string \<Rightarrow> string" where
  "trim s = rev (dropWhile is_space (rev (dropWhile is_space s)))"

text \<open>\<open>s.indexOf(w)\<close>: the first position where \<open>w\<close> starts in \<open>s\<close>, or -1.\<close>

fun indexOf_from :: "nat \<Rightarrow> string \<Rightarrow> string \<Rightarrow> int" where
  "indexOf_from i [] w = (if w = [] then int i else - 1)"
| "indexOf_from i (c # cs) w =
     (if take (length w) (c # cs) = w then int i else indexOf_from (i + 1) cs w)"

definition indexOf :: "string \<Rightarrow> string \<Rightarrow> int" where
  "indexOf s w = indexOf_from 0 s w"

definition str_includes :: "string \<Rightarrow> string \<Rightarrow> bool" where
  "str_includes s w = (indexOf s w \<noteq> - 1)"

text \<open>\<open>s.substring(start, end)\<close>: both arguments are clamped to the string and ordered.\<close>

definition substring :: "string \<Rightarrow> int \<Rightarrow> int \<Rightarrow> string" where
  "substring s start end =
     (let len = int (length s);
          a = min (max start 0) len;
          b = min (max end 0) len;
          from = min a b;
          to = max a b
      in take (nat (to - from)) (drop (nat from) s))"

record job =
  title :: string
  description :: string
  requirements :: "string list option"

text \<open>
  The field \<open>requirements\<close> of a job is a JSON value: \<open>None\<close> stands for a value that is
  not an array, which the handler reads as the empty list.
\<close>

definition requirementsArray :: "job \<Rightarrow> string list" where
  "requirementsArray j = (case requirements j of Some rs \<Rightarrow> rs | None \<Rightarrow> [])"

fun join_space :: "string list \<Rightarrow> string" where
  "join_space [] = []"
| "join_space [x] = x"
| "join_space (x # y # ys) = x @ '' '' @ join_space (y # ys)"

definition jobText :: "job \<Rightarrow> string" where
  "jobText j = title j @ '' '' @ description j @ '' '' @ join_space (requirementsArray j)"

definition jobRequirements :: "job \<Rightarrow> string list" where
  "jobRequirements j = map toLowerCase (requirementsArray j)"

definition requirementWords :: "string \<Rightarrow> string list" where
  "requirementWords requirement =
     map (\<lambda>word. toLowerCase (trim word)) (split_sep [] requirement)"

text \<open>
  The inner \<open>for\<close> loop over the words of one requirement: the snippet pushed at the first
  word that is found (followed by \<open>break\<close>), or \<open>None\<close> when \<open>found\<close> stays false.
  \<open>text\<close> is the text of the resume and \<open>resumeText\<close> its lower-case form.
\<close>

fun find_evidence :: "string \<Rightarrow> string \<Rightarrow> string list \<Rightarrow> string option" where
  "find_evidence text resumeText [] = None"
| "find_evidence text resumeText (word # words) =
     (if 2 < length word \<and> str_includes resumeText word
      then (let index = indexOf resumeText word;
                start = max 0 (index - 100);
                end = min (int (length resumeText)) (index + int (length word) + 100)
            in Some (substring text start end))
      else find_evidence text resumeText words)"

text \<open>The \<open>forEach\<close> over the requirements; the state is (evidenceSnippets, missingRequirements).\<close>

fun requirement_loop ::
  "string \<Rightarrow> string \<Rightarrow> string list \<Rightarrow> string list \<times> string list \<Rightarrow> string list \<times> string list" where
  "requirement_loop text resumeText [] st = st"
| "requirement_loop text resumeText (requirement # rest) (evidenceSnippets, missingRequirements) =
     (case find_evidence text resumeText (requirementWords requirement) of
        Some snippet \<Rightarrow>
          requirement_loop text resumeText rest (evidenceSnippets @ [snippet], missingRequirements)
      | None \<Rightarrow>
          requirement_loop text resumeText rest (evidenceSnippets, missingRequirements @ [requirement]))"

definition evidence_and_missing :: "job \<Rightarrow> string \<Rightarrow> string list \<times> string list" where
  "evidence_and_missing j text =
     requirement_loop text (toLowerCase text) (jobRequirements j) ([], [])"

definition totalRequirements :: "job \<Rightarrow> int" where
  "totalRequirements j = int (length (jobRequirements j))"

definition matchedRequirements :: "job \<Rightarrow> string \<Rightarrow> int" where
  "matchedRequirements j text =
     totalRequirements j - int (length (snd (evidence_and_missing j text)))"

definition keywordScore :: "job \<Rightarrow> string \<Rightarrow> jsnum" where
  "keywordScore j text =
     jsmul (jsdiv (Num (of_int (matchedRequirements j text))) (Num (of_int (totalRequirements j))))
       (Num 100)"

definition combinedScore :: "jsnum \<Rightarrow> jsnum \<Rightarrow> jsnum" where
  "combinedScore similarity kw =
     jsadd (jsmul (jsmul similarity (Num 100)) (Num (3 / 10))) (jsmul kw (Num (7 / 10)))"

record stored_resume =
  s_id :: string
  s_filename :: string
  s_text :: string
  s_embedding :: "jsnum list"
  s_user_name :: string
  s_user_email :: string

record candidate =
  candidate_resume_id :: string
  candidate_name :: string
  candidate_email :: string
  resume_filename :: string
  match_score :: jsnum
  evidence_snippets :: "string list"
  missing_requirements :: "string list"

definition match_resume :: "job \<Rightarrow> stored_resume \<Rightarrow> candidate" where
  "match_resume j resume =
     (let similarity = cosineSimilarity (generateMockEmbedding (jobText j)) (s_embedding resume);
          (evidenceSnippets, missingRequirements) = evidence_and_missing j (s_text resume)
      in \<lparr>candidate_resume_id = s_id resume,
          candidate_name = s_user_name resume,
          candidate_email = s_user_email resume,
          resume_filename = s_filename resume,
          match_score =
            Math_max (Num 0)
              (Math_min (Num 100) (combinedScore similarity (keywordScore j (s_text resume)))),
          evidence_snippets = take 3 evidenceSnippets,
          missing_requirements = take 5 missingRequirements\<rparr>)"

definition match_job :: "job \<Rightarrow> stored_resume list \<Rightarrow> int \<Rightarrow> candidate list" where
  "match_job j resumes top_n =
     slice0 (array_sort (\<lambda>a b. jssub (match_score b) (match_score a))
               (map (match_resume j) resumes)) top_n"

section \<open>Regular expressions\<close>

text \<open>
  The regular expressions of the PII scanner, with the backtracking semantics of the
  language: for a start position, the matcher gives the end positions of all matches in
  the order in which backtracking tries them, so the first one is the match found.
  Quantifiers are greedy. The unbounded quantifiers that occur apply to a single
  character, a character class or the dot.
\<close>

datatype citem = Single char | Range char char | WhiteSpace

datatype atom = Lit char | Dot | Class "citem list"

fun in_citem :: "citem \<Rightarrow> char \<Rightarrow> bool" where
  "in_citem (Single d) c = (c = d)"
| "in_citem (Range lo hi) c = (of_char lo \<le> (of_char c :: nat) \<and> (of_char c :: nat) \<le> of_char hi)"
| "in_citem WhiteSpace c = is_space c"

text \<open>The dot matches every character but a line terminator.\<close>

fun atom_matches :: "atom \<Rightarrow> char \<Rightarrow> bool" where
  "atom_matches (Lit d) c = (c = d)"
| "atom_matches Dot c = (of_char c \<notin> {10, 13 :: nat})"
| "atom_matches (Class items) c = list_ex (\<lambda>item. in_citem item c) items"

datatype rx = EmptyRx | Atom atom | Seq rx rx | Alt rx rx | Opt rx | Star atom | WordBoundary

definition is_word_char :: "char \<Rightarrow> bool" where
  "is_word_char c =
     list_ex (\<lambda>item. in_citem item c)
       [Range CHR ''a'' CHR ''z'', Range CHR ''A'' CHR ''Z'', Range CHR ''0'' CHR ''9'',
        Single CHR ''_'']"

definition word_before :: "string \<Rightarrow> nat \<Rightarrow> bool" where
  "word_before s i = (0 < i \<and> i \<le> length s \<and> is_word_char (s ! (i - 1)))"

definition word_at :: "string \<Rightarrow> nat \<Rightarrow> bool" where
  "word_at s i = (i < length s \<and> is_word_char (s ! i))"

text \<open>
  \<open>rx_ends r s i\<close>: the end positions of the matches of \<open>r\<close> in \<open>s\<close> that start at \<open>i\<close>.
  An optional part that matches the empty string counts as skipped.
\<close>

fun rx_ends :: "rx \<Rightarrow> string \<Rightarrow> nat \<Rightarrow> nat list" where
  "rx_ends EmptyRx s i = [i]"
| "rx_ends (Atom a) s i = (if i < length s \<and> atom_matches a (s ! i) then [i + 1] else [])"
| "rx_ends (Seq r1 r2) s i = concat (map (rx_ends r2 s) (rx_ends r1 s i))"
| "rx_ends (Alt r1 r2) s i = rx_ends r1 s i @ rx_ends r2 s i"
| "rx_ends (Opt r) s i = filter (\<lambda>j. j \<noteq> i) (rx_ends r s i) @ [i]"
| "rx_ends (Star a) s i =
     rev (map (\<lambda>n. i + n) [0 ..< length (takeWhile (atom_matches a) (drop i s)) + 1])"
| "rx_ends WordBoundary s i = (if word_before s i \<noteq> word_at s i then [i] else [])"

text \<open>The quantifier \<open>+\<close> on a single character: one match, then as many as possible.\<close>

definition one_or_more :: "atom \<Rightarrow> rx" where
  "one_or_more a = Seq (Atom a) (Star a)"

text \<open>
  \<open>s.match(r)\<close> for a global \<open>r\<close>: all matches from left to right, each search starting
  where the last match ended (one further after an empty match).
\<close>

function match_all :: "rx \<Rightarrow> string \<Rightarrow> nat \<Rightarrow> string list" where
  "match_all r s i =
     (if length s < i then []
      else (case rx_ends r s i of
              [] \<Rightarrow> match_all r s (i + 1)
            | e # _ \<Rightarrow> take (e - i) (drop i s) # match_all r s (if i < e then e else i + 1)))"
  by pat_completeness auto
termination
  by (relation "measure (\<lambda>(r, s, i). length s + 1 - i)") auto

declare match_all.simps [simp del]

text \<open>\<open>s.replace(r, replacement)\<close> for a global \<open>r\<close> and a replacement without \<open>$\<close>.\<close>

function replace_all :: "rx \<Rightarrow> string \<Rightarrow> string \<Rightarrow> nat \<Rightarrow> string" where
  "replace_all r replacement s i =
     (if length s < i then []
      else (case rx_ends r s i of
              [] \<Rightarrow> (if i < length s then s ! i # replace_all r replacement s (i + 1) else [])
            | e # _ \<Rightarrow>
                if i < e then replacement @ replace_all r replacement s e
                else replacement @
                  (if i < length s then s ! i # replace_all r replacement s (i + 1) else [])))"
  by pat_completeness auto
termination
  by (relation "measure (\<lambda>(r, replacement, s, i). length s + 1 - i)") auto

declare replace_all.simps [simp del]

subsection \<open>The constructor \<open>RegExp\<close>\<close>

text \<open>
  \<open>new RegExp(pattern, 'g')\<close> on the patterns that the redaction builds: literal
  characters, the dot, the quantifier \<open>+\<close>, the alternation bar, and a backslash in front
  of a syntax character. A quantifier with nothing to repeat is the syntax error that the
  constructor throws; a pattern with other syntax is outside the fragment.
\<close>

datatype regex_error = SyntaxError | OutsideFragment

datatype tok = TAtom atom | TPlus | TBar

definition syntax_chars :: string where
  "syntax_chars = ''.*+?^${}()|[]'' @ [CHR 0x5C]"

fun lex_pattern :: "string \<Rightarrow> regex_error + tok list" where
  "lex_pattern [] = Inr []"
| "lex_pattern (c # cs) =
     (if c = CHR 0x5C then
        (case cs of
           [] \<Rightarrow> Inl SyntaxError
         | d # ds \<Rightarrow>
             if d \<in> set syntax_chars then map_sum id (Cons (TAtom (Lit d))) (lex_pattern ds)
             else Inl OutsideFragment)
      else if c = CHR ''.'' then map_sum id (Cons (TAtom Dot)) (lex_pattern cs)
      else if c = CHR ''+'' then map_sum id (Cons TPlus) (lex_pattern cs)
      else if c = CHR ''|'' then map_sum id (Cons TBar) (lex_pattern cs)
      else if c \<in> set syntax_chars then Inl OutsideFragment
      else map_sum id (Cons (TAtom (Lit c))) (lex_pattern cs))"

text \<open>The alternatives of a pattern, each a list of terms.\<close>

fun add_term :: "rx \<Rightarrow> regex_error + rx list list \<Rightarrow> regex_error + rx list list" where
  "add_term t (Inl e) = Inl e"
| "add_term t (Inr []) = Inr [[t]]"
| "add_term t (Inr (alt # alts)) = Inr ((t # alt) # alts)"

fun parse_pattern :: "tok list \<Rightarrow> regex_error + rx list list" where
  "parse_pattern [] = Inr [[]]"
| "parse_pattern (TBar # ts) = map_sum id (Cons []) (parse_pattern ts)"
| "parse_pattern (TPlus # ts) = Inl SyntaxError"
| "parse_pattern (TAtom a # TPlus # ts) = add_term (one_or_more a) (parse_pattern ts)"
| "parse_pattern (TAtom a # ts) = add_term (Atom a) (parse_pattern ts)"

fun seq_of :: "rx list \<Rightarrow> rx" where
  "seq_of [] = EmptyRx"
| "seq_of (t # ts) = Seq t (seq_of ts)"

fun alt_of :: "rx list list \<Rightarrow> rx" where
  "alt_of [] = EmptyRx"
| "alt_of [alt] = seq_of alt"
| "alt_of (alt # alts) = Alt (seq_of alt) (alt_of alts)"

definition RegExp :: "string \<Rightarrow> regex_error + rx" where
  "RegExp pattern =
     (case lex_pattern pattern of
        Inl e \<Rightarrow> Inl e
      | Inr ts \<Rightarrow> (case parse_pattern ts of Inl e \<Rightarrow> Inl e | Inr alts \<Rightarrow> Inr (alt_of alts)))"

section \<open>PII scanner\<close>

definition digit :: atom where
  "digit = Class [Range CHR ''0'' CHR ''9'']"

definition separator :: atom where
  "separator = Class [Single CHR ''-'', Single CHR ''.'', WhiteSpace]"

text \<open>\<open>/\b[A-Za-z0-9._%+-]+@[A-Za-z0-9.-]+\.[A-Z|a-z]{2,}\b/g\<close>\<close>

definition emailRegex :: rx where
  "emailRegex =
     Seq WordBoundary
    (Seq (one_or_more (Class [Range CHR ''A'' CHR ''Z'', Range CHR ''a'' CHR ''z'',
                       Range CHR ''0'' CHR ''9'', Single CHR ''.'', Single CHR ''_'',
                       Single CHR ''%'', Single CHR ''+'', Single CHR ''-'']))
    (Seq (Atom (Lit CHR ''@''))
    (Seq (one_or_more (Class [Range CHR ''A'' CHR ''Z'', Range CHR ''a'' CHR ''z'',
                       Range CHR ''0'' CHR ''9'', Single CHR ''.'', Single CHR ''-'']))
    (Seq (Atom (Lit CHR ''.''))
    (Seq (Atom (Class [Range CHR ''A'' CHR ''Z'', Single CHR ''|'', Range CHR ''a'' CHR ''z'']))
    (Seq (one_or_more (Class [Range CHR ''A'' CHR ''Z'', Single CHR ''|'', Range CHR ''a'' CHR ''z'']))
         WordBoundary))))))"

text \<open>\<open>/(\+?1[-.\s]?)?\(?([0-9]{3})\)?[-.\s]?([0-9]{3})[-.\s]?([0-9]{4})/g\<close>\<close>

definition phoneRegex :: rx where
  "phoneRegex =
     Seq (Opt (Seq (Opt (Atom (Lit CHR ''+''))) (Seq (Atom (Lit CHR ''1'')) (Opt (Atom separator)))))
    (Seq (Opt (Atom (Lit CHR ''('')))
    (Seq (Seq (Atom digit) (Seq (Atom digit) (Atom digit)))
    (Seq (Opt (Atom (Lit CHR '')'')))
    (Seq (Opt (Atom separator))
    (Seq (Seq (Atom digit) (Seq (Atom digit) (Atom digit)))
    (Seq (Opt (Atom separator))
         (Seq (Atom digit) (Seq (Atom digit) (Seq (Atom digit) (Atom digit))))))))))"

text \<open>\<open>/\b[A-Z][a-z]+ [A-Z][a-z]+\b/g\<close>\<close>

definition nameRegex :: rx where
  "nameRegex =
     Seq WordBoundary
    (Seq (Atom (Class [Range CHR ''A'' CHR ''Z'']))
    (Seq (one_or_more (Class [Range CHR ''a'' CHR ''z'']))
    (Seq (Atom (Lit CHR '' ''))
    (Seq (Atom (Class [Range CHR ''A'' CHR ''Z'']))
    (Seq (one_or_more (Class [Range CHR ''a'' CHR ''z'']))
         WordBoundary)))))"

text \<open>\<open>[...new Set(xs)]\<close>: the first occurrence of every string, in order.\<close>

definition dedup :: "string list \<Rightarrow> string list" where
  "dedup xs = foldl (\<lambda>seen x. if x \<in> set seen then seen else seen @ [x]) [] xs"

text \<open>The fields of \<open>PIIData\<close> are optional.\<close>

record PIIData =
  emails :: "string list option"
  phones :: "string list option"
  names :: "string list option"

definition extractPII :: "string \<Rightarrow> PIIData" where
  "extractPII text =
     \<lparr>emails = Some (dedup (match_all emailRegex text 0)),
      phones = Some (dedup (match_all phoneRegex text 0)),
      names = Some (dedup (match_all nameRegex text 0))\<rparr>"

text \<open>\<open>phone.replace(/[.*+?^${}()|[\]\\]/g, '\\$&')\<close>: a backslash in front of every syntax character.\<close>

definition escape_regex :: "string \<Rightarrow> string" where
  "escape_regex s = concat (map (\<lambda>c. if c \<in> set syntax_chars then [CHR 0x5C, c] else [c]) s)"

text \<open>
  The two \<open>forEach\<close> loops of \<open>redactPII\<close>, with \<open>redactedText\<close> passed along. An error
  of the constructor ends the function. The email is the pattern as it is; the phone is
  escaped first.
\<close>

fun redact_emails :: "string \<Rightarrow> string list \<Rightarrow> regex_error + string" where
  "redact_emails redactedText [] = Inr redactedText"
| "redact_emails redactedText (email # rest) =
     (case RegExp email of
        Inl e \<Rightarrow> Inl e
      | Inr r \<Rightarrow> redact_emails (replace_all r ''[EMAIL REDACTED]'' redactedText 0) rest)"

fun redact_phones :: "string \<Rightarrow> string list \<Rightarrow> regex_error + string" where
  "redact_phones redactedText [] = Inr redactedText"
| "redact_phones redactedText (phone # rest) =
     (case RegExp (escape_regex phone) of
        Inl e \<Rightarrow> Inl e
      | Inr r \<Rightarrow> redact_phones (replace_all r ''[PHONE REDACTED]'' redactedText 0) rest)"

definition redactPII :: "string \<Rightarrow> PIIData \<Rightarrow> regex_error + string" where
  "redactPII text pii =
     (case redact_emails text (case emails pii of None \<Rightarrow> [] | Some es \<Rightarrow> es) of
        Inl e \<Rightarrow> Inl e
      | Inr redactedText \<Rightarrow>
          redact_phones redactedText (case phones pii of None \<Rightarrow> [] | Some ps \<Rightarrow> ps))"

section \<open>Properties of the embedder\<close>

lemma length_accumulate [simp]: "length (accumulate e i ws) = length e"
  by (induction e i ws rule: accumulate.induct) (simp_all add: Let_def)

lemma length_raw_embedding [simp]: "length (raw_embedding t) = 384"
  by (simp add: raw_embedding_def)

lemma length_generateMockEmbedding [simp]: "length (generateMockEmbedding t) = 384"
  by (simp add: generateMockEmbedding_def Let_def)

lemma foldl_sumsq: "foldl (\<lambda>sum val. sum + val * val) s xs = s + (\<Sum>x\<leftarrow>xs. x * x)"
  for s :: real
  by (induction xs arbitrary: s) simp_all

lemma sumsq_nonneg: "0 \<le> (\<Sum>x\<leftarrow>xs. x * x)" for xs :: "real list"
  by (induction xs) simp_all

lemma sumsq_zero_iff: "(\<Sum>x\<leftarrow>xs. x * x) = 0 \<longleftrightarrow> (\<forall>x\<in>set xs. x = 0)"
  for xs :: "real list"
proof (induction xs)
  case Nil
  show ?case by simp
next
  case (Cons a xs)
  have "0 \<le> a * a" by simp
  with sumsq_nonneg [of xs]
  have "a * a + (\<Sum>x\<leftarrow>xs. x * x) = 0 \<longleftrightarrow> a * a = 0 \<and> (\<Sum>x\<leftarrow>xs. x * x) = 0"
    by linarith
  with Cons show ?case by simp
qed

lemma magnitude_sq: "magnitude e * magnitude e = (\<Sum>x\<leftarrow>e. x * x)"
  by (simp add: magnitude_def foldl_sumsq sumsq_nonneg)

lemma magnitude_zero_iff: "magnitude e = 0 \<longleftrightarrow> (\<forall>x\<in>set e. x = 0)"
  by (simp add: magnitude_def foldl_sumsq sumsq_zero_iff)

lemma foldl_jsnum_sumsq:
  "foldl (\<lambda>sum val. jsadd sum (jsmul val val)) (Num s) (map Num xs) =
   Num (s + (\<Sum>x\<leftarrow>xs. x * x))"
  by (induction xs arbitrary: s) simp_all

text \<open>With a nonzero magnitude every component of the embedding is a finite number.\<close>

lemma embedding_finite:
  "magnitude (raw_embedding t) \<noteq> 0 \<Longrightarrow>
   generateMockEmbedding t =
     map Num (map (\<lambda>v. v / magnitude (raw_embedding t)) (raw_embedding t))"
  by (simp add: generateMockEmbedding_def Let_def)

text \<open>With magnitude zero every component is zero, and 0 / 0 is NaN.\<close>

lemma embedding_nan:
  assumes m: "magnitude (raw_embedding t) = 0"
  shows "generateMockEmbedding t = replicate 384 NaN"
proof -
  from m have z: "\<forall>x\<in>set (raw_embedding t). x = 0" by (simp add: magnitude_zero_iff)
  have "generateMockEmbedding t = map (\<lambda>val. NaN) (raw_embedding t)"
    unfolding generateMockEmbedding_def Let_def using m z by (intro map_cong) auto
  then show ?thesis by (simp add: map_replicate_const)
qed

lemma sumsq_scaled:
  "(\<Sum>x\<leftarrow>map (\<lambda>v. v / m) xs. x * x) = (\<Sum>x\<leftarrow>xs. x * x) / (m * m)" for m :: real
  by (induction xs) (simp_all add: add_divide_distrib)

lemma sumsq_unit: "k < n \<Longrightarrow> (\<Sum>x\<leftarrow>(replicate n 0)[k := v]. x * x) = v * v" for v :: real
  by (simp add: upd_conv_take_nth_drop sum_list_replicate)

lemma magnitude_unit: "k < n \<Longrightarrow> 0 \<le> v \<Longrightarrow> magnitude ((replicate n 0)[k := v]) = v"
  by (simp add: magnitude_def foldl_sumsq sumsq_unit)

subsection \<open>Four texts, evaluated\<close>

lemma hash_0: "simpleHash ''0'' = 48"
  by (simp add: simpleHash_def to_int32_def)

lemma hash_hi0: "simpleHash ''hi0'' = 103247"
  by (simp add: simpleHash_def to_int32_def)

lemma hash_hi1: "simpleHash ''hi1'' = 103248"
  by (simp add: simpleHash_def to_int32_def)

lemma hash_k0: "simpleHash ''#k0'' = 37000"
  by (simp add: simpleHash_def to_int32_def)

lemma words_empty: "words_of '''' = ['''']"
  by (simp add: words_of_def toLowerCase_def)

lemma words_hi: "words_of ''hi'' = [''hi'']"
  by (simp add: words_of_def toLowerCase_def lower_char_def is_space_def)

lemma words_sp_hi: "words_of '' hi'' = ['''', ''hi'']"
  by (simp add: words_of_def toLowerCase_def lower_char_def is_space_def)

lemma words_k: "words_of ''#k'' = [''#k'']"
  by (simp add: words_of_def toLowerCase_def lower_char_def is_space_def)

lemma raw_empty: "raw_embedding '''' = (replicate 384 0)[48 := 48 / 1000]"
  by (simp add: raw_embedding_def words_empty nat_to_string.simps hash_0)

lemma raw_hi: "raw_embedding ''hi'' = (replicate 384 0)[335 := 247 / 1000]"
  by (simp add: raw_embedding_def words_hi nat_to_string.simps hash_hi0)

lemma raw_sp_hi:
  "raw_embedding '' hi'' = (replicate 384 0)[48 := 48 / 1000, 336 := 248 / 1000]"
  by (simp add: raw_embedding_def words_sp_hi nat_to_string.simps hash_0 hash_hi1)

lemma raw_k: "raw_embedding ''#k'' = replicate 384 0"
  by (simp add: raw_embedding_def words_k nat_to_string.simps hash_k0
        list_eq_iff_nth_eq nth_list_update)

lemma magnitude_empty: "magnitude (raw_embedding '''') = 48 / 1000"
  by (simp add: raw_empty magnitude_unit)

lemma embed_empty: "generateMockEmbedding '''' = (replicate 384 (Num 0))[48 := Num 1]"
  by (simp add: generateMockEmbedding_def Let_def magnitude_empty)
     (simp add: raw_empty map_update)

lemma magnitude_hi: "magnitude (raw_embedding ''hi'') \<noteq> 0"
proof -
  have "raw_embedding ''hi'' ! 335 \<noteq> 0" by (simp add: raw_hi)
  moreover have "raw_embedding ''hi'' ! 335 \<in> set (raw_embedding ''hi'')"
    by (rule nth_mem) simp
  ultimately show ?thesis unfolding magnitude_zero_iff by metis
qed

lemma magnitude_sp_hi: "magnitude (raw_embedding '' hi'') \<noteq> 0"
proof -
  have "raw_embedding '' hi'' ! 48 \<noteq> 0" by (simp add: raw_sp_hi)
  moreover have "raw_embedding '' hi'' ! 48 \<in> set (raw_embedding '' hi'')"
    by (rule nth_mem) simp
  ultimately show ?thesis unfolding magnitude_zero_iff by metis
qed

lemma magnitude_k: "magnitude (raw_embedding ''#k'') = 0"
  by (simp add: magnitude_zero_iff raw_k)

subsection \<open>The empty text\<close>

text \<open>
  C5, as stated, fails: the empty text splits into the single token \<open>""\<close>, which is hashed
  together with its index as the string \<open>"0"\<close> (hash 48). The vector before normalisation
  has 0.048 at index 48, so its magnitude is not zero and no component of the embedding
  is NaN.
\<close>

theorem empty_text_counterexample:
  "magnitude (raw_embedding '''') \<noteq> 0 \<and> NaN \<notin> set (generateMockEmbedding '''')"
proof
  show "magnitude (raw_embedding '''') \<noteq> 0" by (simp add: magnitude_empty)
  have "set (generateMockEmbedding '''') \<subseteq> {Num 1, Num 0}"
    unfolding embed_empty
    using set_update_subset_insert [of "replicate 384 (Num 0)" 48 "Num 1"] by auto
  then show "NaN \<notin> set (generateMockEmbedding '''')" by auto
qed

text \<open>
  C5, amended: the embedding of the empty text is the unit vector with 1 at index 48 and 0
  elsewhere; a vector of NaN components is what every text gets whose vector before
  normalisation has magnitude zero (each component is then 0 / 0).
\<close>

theorem empty_text_embedding:
  "generateMockEmbedding '''' = (replicate 384 (Num 0))[48 := Num 1] \<and>
   (\<forall>t. magnitude (raw_embedding t) = 0 \<longrightarrow> generateMockEmbedding t = replicate 384 NaN)"
  using embed_empty embedding_nan by blast

text \<open>The text \<open>#k\<close> is such a text: its only token hashes to 37000, which adds 0.\<close>

theorem empty_text_embedding_witness:
  "magnitude (raw_embedding ''#k'') = 0 \<and> generateMockEmbedding ''#k'' = replicate 384 NaN"
  using empty_text_embedding magnitude_k by blast

subsection \<open>Unit norm\<close>

text \<open>
  C7: for every non-empty text whose vector before normalisation has a nonzero magnitude,
  the Euclidean norm of the embedding is 1 (over the reals).
\<close>

theorem unit_norm:
  assumes "s \<noteq> []" and "magnitude (raw_embedding s) \<noteq> 0"
  shows "euclidean_norm (generateMockEmbedding s) = Num 1"
proof -
  let ?m = "magnitude (raw_embedding s)"
  have "(\<Sum>x\<leftarrow>map (\<lambda>v. v / ?m) (raw_embedding s). x * x) = (?m * ?m) / (?m * ?m)"
    by (simp only: sumsq_scaled magnitude_sq)
  also have "\<dots> = 1" using assms(2) by simp
  finally have one: "(\<Sum>x\<leftarrow>map (\<lambda>v. v / ?m) (raw_embedding s). x * x) = 1" .
  show ?thesis
    unfolding euclidean_norm_def embedding_finite [OF assms(2)] foldl_jsnum_sumsq one
    by simp
qed

theorem unit_norm_witness:
  "''hi'' \<noteq> [] \<and> magnitude (raw_embedding ''hi'') \<noteq> 0 \<and>
   euclidean_norm (generateMockEmbedding ''hi'') = Num 1"
  using unit_norm [of "''hi''"] magnitude_hi by simp

subsection \<open>Leading white space\<close>

text \<open>
  C10: a text that begins with white space has the empty string as its first token, which
  moves every later token one index up; \<open>hi\<close> is hashed as \<open>hi0\<close> in the text \<open>hi\<close> and as
  \<open>hi1\<close> in the text with a space in front, and the two embeddings differ.
\<close>

theorem leading_whitespace:
  "split_ws [] (toLowerCase '' hi'') = ['''', ''hi''] \<and>
   split_ws [] (toLowerCase ''hi'') = [''hi''] \<and>
   raw_embedding ''hi'' = (replicate 384 0)[335 := 247 / 1000] \<and>
   raw_embedding '' hi'' = (replicate 384 0)[48 := 48 / 1000, 336 := 248 / 1000] \<and>
   generateMockEmbedding '' hi'' \<noteq> generateMockEmbedding ''hi''"
proof -
  have a: "generateMockEmbedding ''hi'' ! 48 = Num 0"
    using magnitude_hi by (simp add: generateMockEmbedding_def Let_def) (simp add: raw_hi)
  have b: "generateMockEmbedding '' hi'' ! 48 =
           Num (48 / 1000 / magnitude (raw_embedding '' hi''))"
    using magnitude_sp_hi
    by (simp add: generateMockEmbedding_def Let_def) (simp add: raw_sp_hi)
  have "generateMockEmbedding '' hi'' ! 48 \<noteq> generateMockEmbedding ''hi'' ! 48"
    unfolding a b using magnitude_sp_hi by simp
  then have "generateMockEmbedding '' hi'' \<noteq> generateMockEmbedding ''hi''" by metis
  with words_hi words_sp_hi raw_hi raw_sp_hi show ?thesis
    unfolding words_of_def by simp
qed

section \<open>Properties of the similarity scorer\<close>

text \<open>
  C8: for vectors of different lengths \<open>cosineSimilarity\<close> returns 0; the function is
  total, so nothing is raised.
\<close>

theorem length_guard:
  "length a \<noteq> length b \<Longrightarrow> cosineSimilarity a b = Num 0"
  by (simp add: cosineSimilarity_def)

theorem length_guard_witness:
  "length [Num 1] \<noteq> length ([] :: jsnum list) \<and> cosineSimilarity [Num 1] [] = Num 0"
  using length_guard [of "[Num 1]" "[]"] by simp

section \<open>Arithmetic with NaN\<close>

lemma jsmul_NaN_right [simp]: "jsmul x NaN = NaN" by (cases x) simp_all
lemma jsadd_NaN_right [simp]: "jsadd x NaN = NaN" by (cases x) simp_all
lemma jsdiv_NaN_right [simp]: "jsdiv x NaN = NaN" by (cases x) simp_all
lemma jssub_NaN_right [simp]: "jssub x NaN = NaN" by (simp add: jssub_def)
lemma jssub_NaN_left [simp]: "jssub NaN x = NaN" by (simp add: jssub_def)
lemma jsgt_NaN_right [simp]: "\<not> jsgt x NaN" by (cases x) simp_all
lemma Math_min_NaN_right [simp]: "Math_min x NaN = NaN" by (cases x) simp_all
lemma Math_max_NaN_right [simp]: "Math_max x NaN = NaN" by (cases x) simp_all

section \<open>Cosine similarity of two embeddings\<close>

lemma sumsq_embedding:
  assumes "magnitude (raw_embedding s) \<noteq> 0"
  shows "(\<Sum>x\<leftarrow>map (\<lambda>v. v / magnitude (raw_embedding s)) (raw_embedding s). x * x) = 1"
proof -
  let ?m = "magnitude (raw_embedding s)"
  have "(\<Sum>x\<leftarrow>map (\<lambda>v. v / ?m) (raw_embedding s). x * x) = (?m * ?m) / (?m * ?m)"
    by (simp only: sumsq_scaled magnitude_sq)
  also have "\<dots> = 1" using assms by simp
  finally show ?thesis .
qed

lemma cosine_loop_Num:
  "length xs = length ys \<Longrightarrow>
   cosine_loop (map Num xs) (map Num ys) i (Num d, Num p, Num q) =
     (Num (d + (\<Sum>(x, y)\<leftarrow>drop i (zip xs ys). x * y)),
      Num (p + (\<Sum>x\<leftarrow>drop i xs. x * x)),
      Num (q + (\<Sum>y\<leftarrow>drop i ys. y * y)))"
proof (induction "length xs - i" arbitrary: i d p q)
  case 0
  then show ?case by (simp add: cosine_loop.simps)
next
  case (Suc n)
  then have i: "i < length xs" and n: "n = length xs - (i + 1)" by simp_all
  from i Suc.prems have iy: "i < length ys" by simp
  have dx: "drop i xs = xs ! i # drop (Suc i) xs" using i by (simp add: Cons_nth_drop_Suc)
  have dy: "drop i ys = ys ! i # drop (Suc i) ys" using iy by (simp add: Cons_nth_drop_Suc)
  have dz: "drop i (zip xs ys) = (xs ! i, ys ! i) # drop (Suc i) (zip xs ys)"
    using i iy by (simp add: Cons_nth_drop_Suc [symmetric])
  show ?case
    using i iy Suc.hyps(1) [OF n Suc.prems]
    by (subst cosine_loop.simps) (simp add: dx dy dz add.assoc)
qed

lemma sum_zip_same: "(\<Sum>(x, y)\<leftarrow>zip xs xs. x * y) = (\<Sum>x\<leftarrow>xs. x * x)" for xs :: "real list"
  by (induction xs) simp_all

lemma cosine_self_unit:
  assumes "(\<Sum>x\<leftarrow>w. x * x) = 1"
  shows "cosineSimilarity (map Num w) (map Num w) = Num 1"
  using cosine_loop_Num [of w w 0 0 0 0] assms
  by (simp add: cosineSimilarity_def sum_zip_same)

lemma cosine_loop_dot_NaN: "fst (cosine_loop a b i (NaN, p, q)) = NaN"
proof (induction "length a - i" arbitrary: i p q)
  case 0
  then show ?case by (simp add: cosine_loop.simps)
next
  case (Suc n)
  then have "n = length a - (i + 1)" by simp
  from Suc.hyps(1) [OF this] show ?case
    by (subst cosine_loop.simps) simp
qed

lemma cosine_NaN_right:
  assumes "length a = n" and "0 < n"
  shows "cosineSimilarity a (replicate n NaN) = NaN"
proof -
  have "cosine_loop a (replicate n NaN) 0 (Num 0, Num 0, Num 0) =
        cosine_loop a (replicate n NaN) 1 (NaN, jsadd (Num 0) (jsmul (a ! 0) (a ! 0)), NaN)"
    using assms by (subst cosine_loop.simps) simp
  then have "fst (cosine_loop a (replicate n NaN) 0 (Num 0, Num 0, Num 0)) = NaN"
    by (simp add: cosine_loop_dot_NaN)
  then show ?thesis using assms
    by (auto simp: cosineSimilarity_def split: prod.splits)
qed

lemma cosine_hi_hi:
  "cosineSimilarity (generateMockEmbedding ''hi'') (generateMockEmbedding ''hi'') = Num 1"
  unfolding embedding_finite [OF magnitude_hi]
  by (rule cosine_self_unit) (rule sumsq_embedding [OF magnitude_hi])

lemma cosine_hi_k:
  "cosineSimilarity (generateMockEmbedding ''hi'') (generateMockEmbedding ''#k'') = NaN"
  unfolding embedding_nan [OF magnitude_k]
  by (rule cosine_NaN_right) simp_all

text \<open>
  Against a vector of zeros the similarity of an embedding is 0 / 0. (A NaN component that
  was stored as JSON comes back as \<open>null\<close>, which multiplies like 0.)
\<close>

lemma sum_zip_zero:
  "(\<Sum>(x, y)\<leftarrow>zip w (replicate n 0). x * y) = 0" for w :: "real list"
proof (induction w arbitrary: n)
  case Nil
  show ?case by simp
next
  case (Cons a w)
  then show ?case by (cases n) simp_all
qed

lemma cosine_zero_right:
  assumes "length w = n"
  shows "cosineSimilarity (map Num w) (replicate n (Num 0)) = NaN"
proof -
  have r: "replicate n (Num 0) = map Num (replicate n 0)" by simp
  have "0 \<le> (\<Sum>x\<leftarrow>w. x * x)" by (rule sumsq_nonneg)
  then show ?thesis
    unfolding r using cosine_loop_Num [of w "replicate n 0" 0 0 0 0] assms
    by (simp add: cosineSimilarity_def sum_zip_zero sum_list_replicate)
qed

lemma cosine_NaN_left:
  assumes "length b = n" and "0 < n"
  shows "cosineSimilarity (replicate n NaN) b = NaN"
proof -
  have "cosine_loop (replicate n NaN) b 0 (Num 0, Num 0, Num 0) =
        cosine_loop (replicate n NaN) b 1 (NaN, NaN, jsadd (Num 0) (jsmul (b ! 0) (b ! 0)))"
    using assms by (subst cosine_loop.simps) simp
  then have "fst (cosine_loop (replicate n NaN) b 0 (Num 0, Num 0, Num 0)) = NaN"
    by (simp add: cosine_loop_dot_NaN)
  then show ?thesis using assms
    by (auto simp: cosineSimilarity_def split: prod.splits)
qed

lemma cosine_embedding_zero:
  "cosineSimilarity (generateMockEmbedding t) (replicate 384 (Num 0)) = NaN"
proof (cases "magnitude (raw_embedding t) = 0")
  case True
  then show ?thesis by (simp add: embedding_nan cosine_NaN_left)
next
  case False
  then show ?thesis
    unfolding embedding_finite [OF False] by (intro cosine_zero_right) simp
qed

section \<open>Properties of the semantic retriever\<close>

lemma set_sort_insert [simp]: "set (sort_insert cmp x ys) = insert x (set ys)"
  by (induction ys) auto

lemma set_array_sort [simp]: "set (array_sort cmp xs) = set xs"
  by (induction xs) auto

lemma count_sort_insert:
  "length (filter P (sort_insert cmp x ys)) = length (filter P (x # ys))"
  by (induction ys) auto

lemma count_array_sort: "length (filter P (array_sort cmp xs)) = length (filter P xs)"
  by (induction xs) (auto simp: count_sort_insert)

lemma length_array_sort [simp]: "length (array_sort cmp xs) = length xs"
  using count_array_sort [of "\<lambda>x. True" cmp xs] by simp

lemma jssub_Num [simp]: "jssub (Num a) (Num b) = Num (a - b)"
  by (simp add: jssub_def)

lemma sorted_sort_insert:
  assumes "\<forall>h\<in>insert x (set ys). \<exists>v. score h = Num v"
    and "sorted_wrt (\<lambda>a b. \<not> jsgt (score b) (score a)) ys"
  shows "sorted_wrt (\<lambda>a b. \<not> jsgt (score b) (score a))
           (sort_insert (\<lambda>a b. jssub (score b) (score a)) x ys)"
  using assms
proof (induction ys)
  case Nil
  then show ?case by simp
next
  case (Cons y ys)
  from Cons.prems(1) obtain vx vy where vx: "score x = Num vx" and vy: "score y = Num vy"
    by auto
  show ?case
  proof (cases "vx < vy")
    case True
    have "sorted_wrt (\<lambda>a b. \<not> jsgt (score b) (score a))
            (sort_insert (\<lambda>a b. jssub (score b) (score a)) x ys)"
      using Cons by simp
    moreover have "\<forall>z\<in>set ys. \<not> jsgt (score z) (score y)"
      using Cons.prems(2) by simp
    ultimately show ?thesis using True vx vy by simp
  next
    case False
    have "\<not> jsgt (score z) (score x)" if "z \<in> set ys" for z
    proof -
      from that Cons.prems(1) obtain vz where vz: "score z = Num vz" by auto
      from that Cons.prems(2) have "\<not> jsgt (score z) (score y)" by simp
      with vz vy False show ?thesis by (simp add: vx)
    qed
    with Cons.prems(2) False vx vy show ?thesis by simp
  qed
qed

lemma sorted_array_sort:
  "\<forall>h\<in>set xs. \<exists>v. score h = Num v \<Longrightarrow>
   sorted_wrt (\<lambda>a b. \<not> jsgt (score b) (score a))
     (array_sort (\<lambda>a b. jssub (score b) (score a)) xs)"
proof (induction xs)
  case Nil
  show ?case by simp
next
  case (Cons x xs)
  then show ?case by (simp add: sorted_sort_insert)
qed

text \<open>In a list sorted downwards, the entries above a threshold form a prefix.\<close>

lemma threshold_prefix:
  assumes "sorted_wrt (\<lambda>a b. \<not> jsgt (score b) (score a)) xs"
    and "\<forall>h\<in>set xs. \<exists>v. score h = Num v"
    and "n \<le> length (filter (\<lambda>h. jsgt (score h) (Num t)) xs)"
  shows "filter (\<lambda>h. jsgt (score h) (Num t)) (take n xs) = take n xs"
  using assms
proof (induction xs arbitrary: n)
  case Nil
  then show ?case by simp
next
  case (Cons x xs)
  show ?case
  proof (cases n)
    case 0
    then show ?thesis by simp
  next
    case (Suc m)
    from Cons.prems(2) obtain vx where vx: "score x = Num vx" by auto
    have above: "jsgt (score x) (Num t)"
    proof (rule ccontr)
      assume neg: "\<not> jsgt (score x) (Num t)"
      have "\<not> jsgt (score z) (Num t)" if "z \<in> set xs" for z
      proof -
        from that Cons.prems(2) obtain vz where vz: "score z = Num vz" by auto
        from that Cons.prems(1) have "\<not> jsgt (score z) (score x)" by simp
        with neg vx vz show ?thesis by simp
      qed
      then have "filter (\<lambda>h. jsgt (score h) (Num t)) xs = []" by (simp add: filter_empty_conv)
      with neg Cons.prems(3) Suc show False by simp
    qed
    with Cons.prems(3) Suc have "m \<le> length (filter (\<lambda>h. jsgt (score h) (Num t)) xs)" by simp
    with Cons.IH [of m] Cons.prems(1,2)
    have "filter (\<lambda>h. jsgt (score h) (Num t)) (take m xs) = take m xs" by simp
    with above Suc show ?thesis by simp
  qed
qed

lemma count_search_results:
  "length (filter (\<lambda>h. jsgt (score h) t) (search_results q rs)) =
   length (filter (\<lambda>r. jsgt (cosineSimilarity (generateMockEmbedding q) (r_embedding r)) t) rs)"
  by (simp add: search_results_def Let_def filter_map comp_def)

text \<open>
  C1, as stated, fails: the list is cut to its first \<open>k\<close> entries before the threshold
  is applied. A score that is NaN compares as equal to every other score, so a stable sort
  leaves such an entry where it was; here it fills the single place that \<open>k = 1\<close> leaves
  and is then removed by the threshold, although the other entry has similarity 1.
\<close>

theorem search_hits_counterexample:
  "(1::int) \<le> int (length (filter
      (\<lambda>r. jsgt (cosineSimilarity (generateMockEmbedding ''hi'') (r_embedding r)) (Num (1 / 10)))
      [\<lparr>r_id = ''a'', r_text = ''#k'', r_embedding = generateMockEmbedding ''#k''\<rparr>,
       \<lparr>r_id = ''b'', r_text = ''hi'', r_embedding = generateMockEmbedding ''hi''\<rparr>]))
   \<and> semanticSearch ''hi''
      [\<lparr>r_id = ''a'', r_text = ''#k'', r_embedding = generateMockEmbedding ''#k''\<rparr>,
       \<lparr>r_id = ''b'', r_text = ''hi'', r_embedding = generateMockEmbedding ''hi''\<rparr>] 1 = []
   \<and> semanticSearch ''hi''
      [\<lparr>r_id = ''a'', r_text = ''#k'', r_embedding = replicate 384 (Num 0)\<rparr>,
       \<lparr>r_id = ''b'', r_text = ''hi'', r_embedding = generateMockEmbedding ''hi''\<rparr>] 1 = []"
  by (simp add: semanticSearch_def search_results_def Let_def slice0_def
      cosine_hi_hi cosine_hi_k cosine_embedding_zero)

text \<open>
  C1, amended: the sorted list is cut to its first \<open>k\<close> entries and the threshold is
  applied to what is left. For every query, every corpus whose similarities to the query
  are all finite numbers, and every integer \<open>k \<ge> 0\<close> such that at least \<open>k\<close> entries have
  a similarity greater than 0.1, the result is the first \<open>k\<close> entries of the sorted list
  and has exactly \<open>k\<close> hits.
\<close>

theorem search_hits:
  assumes k: "0 \<le> k"
    and fin: "\<forall>r\<in>set resumes. \<exists>v. cosineSimilarity (generateMockEmbedding q) (r_embedding r) = Num v"
    and enough: "k \<le> int (length (filter
        (\<lambda>r. jsgt (cosineSimilarity (generateMockEmbedding q) (r_embedding r)) (Num (1 / 10)))
        resumes))"
  shows "semanticSearch q resumes k =
           take (nat k) (array_sort (\<lambda>a b. jssub (score b) (score a)) (search_results q resumes))
         \<and> int (length (semanticSearch q resumes k)) = k"
proof -
  let ?sorted = "array_sort (\<lambda>a b. jssub (score b) (score a)) (search_results q resumes)"
  have fin': "\<forall>h\<in>set (search_results q resumes). \<exists>v. score h = Num v"
    using fin by (auto simp: search_results_def Let_def)
  have n: "nat k \<le> length (filter (\<lambda>h. jsgt (score h) (Num (1 / 10))) ?sorted)"
    using enough k by (simp add: count_array_sort count_search_results)
  have eq: "filter (\<lambda>h. jsgt (score h) (Num (1 / 10))) (take (nat k) ?sorted) = take (nat k) ?sorted"
    using sorted_array_sort [OF fin'] fin' n by (intro threshold_prefix) simp_all
  have "nat k \<le> length ?sorted"
    using n length_filter_le [of "\<lambda>h. jsgt (score h) (Num (1 / 10))" ?sorted] by linarith
  then have "int (length (take (nat k) ?sorted)) = k" using k by simp
  with eq k show ?thesis by (simp add: semanticSearch_def slice0_def)
qed

theorem search_hits_witness:
  "(0::int) \<le> 1 \<and>
   cosineSimilarity (generateMockEmbedding ''hi'') (generateMockEmbedding ''hi'') = Num 1 \<and>
   semanticSearch ''hi''
     [\<lparr>r_id = ''b'', r_text = ''hi'', r_embedding = generateMockEmbedding ''hi''\<rparr>] 1 =
   [\<lparr>resume_id = ''b'', hit_text = ''hi'', score = Num 1\<rparr>] \<and>
   int (length (semanticSearch ''hi''
     [\<lparr>r_id = ''b'', r_text = ''hi'', r_embedding = generateMockEmbedding ''hi''\<rparr>] 1)) = 1"
  using search_hits [of 1 "[\<lparr>r_id = ''b'', r_text = ''hi'', r_embedding = generateMockEmbedding ''hi''\<rparr>]" "''hi''"]
  by (simp add: cosine_hi_hi search_results_def Let_def)

section \<open>Properties of the job matcher\<close>

subsection \<open>The requirement loop\<close>

lemma indexOf_from_found:
  "indexOf_from i s w \<noteq> - 1 \<longleftrightarrow> (\<exists>pre post. s = pre @ w @ post)"
proof (induction s arbitrary: i)
  case Nil
  show ?case by simp
next
  case (Cons c cs)
  have pre: "take (length w) (c # cs) = w \<longleftrightarrow> (\<exists>post. c # cs = w @ post)"
    by (metis append_eq_conv_conj append_take_drop_id)
  have split: "(\<exists>pre post. c # cs = pre @ w @ post) \<longleftrightarrow>
               (\<exists>post. c # cs = w @ post) \<or> (\<exists>pre post. cs = pre @ w @ post)"
  proof
    assume "\<exists>pre post. c # cs = pre @ w @ post"
    then obtain pre post where e: "c # cs = pre @ w @ post" by blast
    show "(\<exists>post. c # cs = w @ post) \<or> (\<exists>pre post. cs = pre @ w @ post)"
    proof (cases pre)
      case Nil
      with e show ?thesis by auto
    next
      case (Cons a pre')
      with e have "cs = pre' @ w @ post" by simp
      then show ?thesis by blast
    qed
  next
    assume "(\<exists>post. c # cs = w @ post) \<or> (\<exists>pre post. cs = pre @ w @ post)"
    then show "\<exists>pre post. c # cs = pre @ w @ post"
    proof
      assume "\<exists>post. c # cs = w @ post"
      then obtain post where "c # cs = [] @ w @ post" by auto
      then show ?thesis by blast
    next
      assume "\<exists>pre post. cs = pre @ w @ post"
      then obtain pre post where "c # cs = (c # pre) @ w @ post" by auto
      then show ?thesis by blast
    qed
  qed
  show ?case
  proof (cases "take (length w) (c # cs) = w")
    case True
    then show ?thesis using pre split by simp
  next
    case False
    then show ?thesis using pre split Cons.IH [of "i + 1"] by simp
  qed
qed

lemma str_includes_iff: "str_includes s w \<longleftrightarrow> (\<exists>pre post. s = pre @ w @ post)"
  by (simp add: str_includes_def indexOf_def indexOf_from_found)

lemma find_evidence_None_iff:
  "find_evidence t low ws = None \<longleftrightarrow> \<not> list_ex (\<lambda>w. 2 < length w \<and> str_includes low w) ws"
  by (induction ws) (simp_all add: Let_def)

lemma requirement_loop_step:
  "requirement_loop t low (r # rs) (ev, miss) =
   requirement_loop t low rs (requirement_loop t low [r] (ev, miss))"
  by (simp split: option.splits)

lemma requirement_loop_single:
  "(if list_ex (\<lambda>w. 2 < length w \<and> str_includes low w) (requirementWords r)
    then \<exists>snippet. requirement_loop t low [r] (ev, miss) = (ev @ [snippet], miss)
    else requirement_loop t low [r] (ev, miss) = (ev, miss @ [r]))"
proof (cases "find_evidence t low (requirementWords r)")
  case None
  then show ?thesis using find_evidence_None_iff [of t low "requirementWords r"] by simp
next
  case (Some s)
  then show ?thesis using find_evidence_None_iff [of t low "requirementWords r"] by simp
qed

lemma requirement_loop_lengths:
  "length (fst (requirement_loop t low rs (ev, miss))) +
   length (snd (requirement_loop t low rs (ev, miss))) = length ev + length miss + length rs"
  by (induction rs arbitrary: ev miss) (simp_all split: option.splits)

text \<open>The scenario of one job with two requirements and one resume, evaluated.\<close>

lemmas str_eval = toLowerCase_def lower_char_def char_of_def bit_Suc_0_iff is_space_def trim_def
  requirementWords_def str_includes_def indexOf_def substring_def Let_def

lemma scenario_loop:
  "evidence_and_missing \<lparr>title = ''Dev'', description = ''Build'',
       requirements = Some [''React'', ''Kubernetes'']\<rparr> ''I have 5 years of React experience'' =
   ([''I have 5 years of React experience''], [''kubernetes''])"
  by (simp add: evidence_and_missing_def jobRequirements_def requirementsArray_def str_eval)

text \<open>
  The pieces of a requirement: the requirement is cut at every comma, colon and semicolon,
  and each piece is trimmed and put in lower case.
\<close>

lemma split_sep_plain:
  "\<forall>c\<in>set p. c \<notin> {CHR '','', CHR '':'', CHR '';''} \<Longrightarrow> split_sep cur p = [cur @ p]"
  by (induction p arbitrary: cur) simp_all

lemma split_sep_at:
  "\<forall>c\<in>set p. c \<notin> {CHR '','', CHR '':'', CHR '';''} \<Longrightarrow>
   c \<in> {CHR '','', CHR '':'', CHR '';''} \<Longrightarrow>
   split_sep cur (p @ c # rest) = (cur @ p) # split_sep [] rest"
  by (induction p arbitrary: cur) simp_all

lemma requirementWords_plain:
  "\<forall>c\<in>set p. c \<notin> {CHR '','', CHR '':'', CHR '';''} \<Longrightarrow>
   requirementWords p = [toLowerCase (trim p)]"
  by (simp add: requirementWords_def split_sep_plain)

lemma requirementWords_at:
  "\<forall>c\<in>set p. c \<notin> {CHR '','', CHR '':'', CHR '';''} \<Longrightarrow>
   c \<in> {CHR '','', CHR '':'', CHR '';''} \<Longrightarrow>
   requirementWords (p @ c # rest) = toLowerCase (trim p) # requirementWords rest"
  by (simp add: requirementWords_def split_sep_at)

lemma rev_split_end: "xs = rev (dropWhile P (rev xs)) @ rev (takeWhile P (rev xs))"
  by (metis rev_append rev_rev_ident takeWhile_dropWhile_id)

lemma trim_decompose:
  "s = takeWhile is_space s @ trim s @ rev (takeWhile is_space (rev (dropWhile is_space s)))"
proof -
  have "dropWhile is_space s =
        trim s @ rev (takeWhile is_space (rev (dropWhile is_space s)))"
    unfolding trim_def by (rule rev_split_end)
  moreover have "s = takeWhile is_space s @ dropWhile is_space s" by simp
  ultimately show ?thesis by metis
qed

lemma trim_ends:
  assumes "trim s \<noteq> []"
  shows "\<not> is_space (hd (trim s))" and "\<not> is_space (last (trim s))"
proof -
  let ?d = "dropWhile is_space s"
  let ?e = "dropWhile is_space (rev ?d)"
  from assms have e: "?e \<noteq> []" by (simp add: trim_def)
  have d: "?d \<noteq> []"
  proof
    assume a: "?d = []"
    have "?e = []" unfolding a by simp
    with e show False by simp
  qed
  have "last (trim s) = hd ?e" using e by (simp add: trim_def last_rev)
  then show "\<not> is_space (last (trim s))" using e hd_dropWhile [of is_space "rev ?d"] by simp
  have "rev ?d = takeWhile is_space (rev ?d) @ ?e" by simp
  then have "last (rev ?d) = last ?e" using e by (metis last_appendR)
  then have "hd (trim s) = hd ?d" using e d by (simp add: trim_def hd_rev last_rev)
  then show "\<not> is_space (hd (trim s))" using d hd_dropWhile [of is_space s] by simp
qed

lemma lower_char_code:
  "(of_char (lower_char c) :: nat) =
   (if (65 \<le> (of_char c :: nat) \<and> (of_char c :: nat) \<le> 90) \<or>
       (192 \<le> (of_char c :: nat) \<and> (of_char c :: nat) \<le> 222 \<and> (of_char c :: nat) \<noteq> 215)
    then of_char c + 32 else of_char c)"
  by (auto simp: lower_char_def Let_def)

text \<open>A job whose requirements have separators, against a resume, evaluated.\<close>

lemma scenario_split:
  "evidence_and_missing \<lparr>title = ''Dev'', description = ''Build'',
       requirements = Some [''Go, React'', ''Kubernetes: Helm'']\<rparr> ''I know React'' =
   ([''I know React''], [''kubernetes: helm''])"
  by code_simp

text \<open>
  C9: every requirement adds exactly one entry, to the evidence snippets when one of its
  pieces of more than 2 characters occurs in the lower-case resume text and to the missing
  requirements otherwise. So, before the lists are cut, their lengths add up to the number
  of requirements, and the matched count that the keyword score uses is the number of
  evidence snippets. The loop runs over the lower-case requirements and the lower-case
  resume text, starting from two empty lists. The pieces of a requirement are what lies
  between its commas, colons and semicolons, each trimmed of the white space at its two
  ends and put in lower case.
\<close>

theorem requirement_outcomes:
  "requirement_loop t low (r # rs) (ev, miss) =
     requirement_loop t low rs (requirement_loop t low [r] (ev, miss)) \<and>
   (if list_ex (\<lambda>w. 2 < length w \<and> (\<exists>pre post. low = pre @ w @ post)) (requirementWords r)
    then \<exists>snippet. requirement_loop t low [r] (ev, miss) = (ev @ [snippet], miss)
    else requirement_loop t low [r] (ev, miss) = (ev, miss @ [r])) \<and>
   (case evidence_and_missing j body of
      (evidenceSnippets, missingRequirements) \<Rightarrow>
        length evidenceSnippets + length missingRequirements = length (jobRequirements j) \<and>
        matchedRequirements j body = int (length evidenceSnippets)) \<and>
   evidence_and_missing j body =
     requirement_loop body (toLowerCase body) (map toLowerCase (requirementsArray j)) ([], []) \<and>
   ((\<forall>x\<in>set p. x \<notin> {CHR '','', CHR '':'', CHR '';''}) \<longrightarrow>
      requirementWords p = [toLowerCase (trim p)]) \<and>
   ((\<forall>x\<in>set p. x \<notin> {CHR '','', CHR '':'', CHR '';''}) \<and> c \<in> {CHR '','', CHR '':'', CHR '';''} \<longrightarrow>
      requirementWords (p @ c # rest) = toLowerCase (trim p) # requirementWords rest) \<and>
   s = takeWhile is_space s @ trim s @ rev (takeWhile is_space (rev (dropWhile is_space s))) \<and>
   (trim s \<noteq> [] \<longrightarrow> \<not> is_space (hd (trim s)) \<and> \<not> is_space (last (trim s))) \<and>
   toLowerCase s = map lower_char s \<and>
   (of_char (lower_char ch) :: nat) =
     (if (65 \<le> (of_char ch :: nat) \<and> (of_char ch :: nat) \<le> 90) \<or>
         (192 \<le> (of_char ch :: nat) \<and> (of_char ch :: nat) \<le> 222 \<and> (of_char ch :: nat) \<noteq> 215)
      then of_char ch + 32 else of_char ch)"
proof -
  obtain es ms where em: "evidence_and_missing j body = (es, ms)"
    by (cases "evidence_and_missing j body")
  have "length es + length ms = length (jobRequirements j)"
    using requirement_loop_lengths [of body "toLowerCase body" "jobRequirements j" "[]" "[]"] em
    by (simp add: evidence_and_missing_def)
  then have counts: "case evidence_and_missing j body of
      (evidenceSnippets, missingRequirements) \<Rightarrow>
        length evidenceSnippets + length missingRequirements = length (jobRequirements j) \<and>
        matchedRequirements j body = int (length evidenceSnippets)"
    using em by (simp add: matchedRequirements_def totalRequirements_def)
  have outcome: "if list_ex (\<lambda>w. 2 < length w \<and> (\<exists>pre post. low = pre @ w @ post)) (requirementWords r)
    then \<exists>snippet. requirement_loop t low [r] (ev, miss) = (ev @ [snippet], miss)
    else requirement_loop t low [r] (ev, miss) = (ev, miss @ [r])"
    using requirement_loop_single [of low r t ev miss] by (simp add: str_includes_iff)
  have unfolded: "evidence_and_missing j body =
     requirement_loop body (toLowerCase body) (map toLowerCase (requirementsArray j)) ([], [])"
    by (simp add: evidence_and_missing_def jobRequirements_def)
  have lower: "toLowerCase s = map lower_char s" by (simp add: toLowerCase_def)
  have step: "requirement_loop t low (r # rs) (ev, miss) =
      requirement_loop t low rs (requirement_loop t low [r] (ev, miss))"
    by (rule requirement_loop_step)
  have plain: "(\<forall>x\<in>set p. x \<notin> {CHR '','', CHR '':'', CHR '';''}) \<longrightarrow>
      requirementWords p = [toLowerCase (trim p)]"
    using requirementWords_plain [of p] by blast
  have at: "(\<forall>x\<in>set p. x \<notin> {CHR '','', CHR '':'', CHR '';''}) \<and>
      c \<in> {CHR '','', CHR '':'', CHR '';''} \<longrightarrow>
      requirementWords (p @ c # rest) = toLowerCase (trim p) # requirementWords rest"
    using requirementWords_at [of p c rest] by blast
  have dec: "s = takeWhile is_space s @ trim s @
      rev (takeWhile is_space (rev (dropWhile is_space s)))"
    by (rule trim_decompose)
  have ends: "trim s \<noteq> [] \<longrightarrow> \<not> is_space (hd (trim s)) \<and> \<not> is_space (last (trim s))"
    using trim_ends [of s] by blast
  have code: "(of_char (lower_char ch) :: nat) =
     (if (65 \<le> (of_char ch :: nat) \<and> (of_char ch :: nat) \<le> 90) \<or>
         (192 \<le> (of_char ch :: nat) \<and> (of_char ch :: nat) \<le> 222 \<and> (of_char ch :: nat) \<noteq> 215)
      then of_char ch + 32 else of_char ch)"
    by (rule lower_char_code)
  show ?thesis
    by (intro conjI) (fact step outcome counts unfolded plain at dec ends lower code)+
qed

text \<open>
  The requirement \<open>Go, React\<close> against the resume \<open>I know React\<close>: the piece \<open>go\<close> is too
  short, the piece \<open>react\<close> is found after the cut at the comma and the trim.
\<close>

theorem requirement_outcomes_witness:
  "requirementWords ''go, react'' = [''go'', ''react''] \<and>
   requirementWords ''kubernetes: helm'' = [''kubernetes'', ''helm''] \<and>
   requirement_loop ''I know React'' ''i know react'' [''go, react''] ([], []) =
     ([''I know React''], []) \<and>
   requirement_loop ''I know React'' ''i know react'' [''go, react'', ''kubernetes: helm''] ([], []) =
     ([''I know React''], [''kubernetes: helm'']) \<and>
   evidence_and_missing \<lparr>title = ''Dev'', description = ''Build'',
       requirements = Some [''Go, React'', ''Kubernetes: Helm'']\<rparr> ''I know React'' =
     ([''I know React''], [''kubernetes: helm'']) \<and>
   matchedRequirements \<lparr>title = ''Dev'', description = ''Build'',
       requirements = Some [''Go, React'', ''Kubernetes: Helm'']\<rparr> ''I know React'' = 1"
proof -
  note T = requirement_outcomes [where t = "''I know React''" and low = "''i know react''"
      and r = "''go, react''" and rs = "[''kubernetes: helm'']" and ev = "[]" and miss = "[]"
      and j = "\<lparr>title = ''Dev'', description = ''Build'',
                 requirements = Some [''Go, React'', ''Kubernetes: Helm'']\<rparr>"
      and body = "''I know React''" and p = "''go''" and c = "CHR '',''" and rest = "'' react''"
      and s = "'' react''" and ch = "CHR ''R''"]
  have sep: "\<forall>x\<in>set ''go''. x \<notin> {CHR '','', CHR '':'', CHR '';''}" by simp
  from T sep have "requirementWords (''go'' @ CHR '','' # '' react'') =
      toLowerCase (trim ''go'') # requirementWords '' react''" by blast
  then have w1: "requirementWords ''go, react'' = [''go'', ''react'']"
    by (simp add: str_eval)
  have w2: "requirementWords ''kubernetes: helm'' = [''kubernetes'', ''helm'']"
    by code_simp
  from T have step: "requirement_loop ''I know React'' ''i know react''
        [''go, react'', ''kubernetes: helm''] ([], []) =
      requirement_loop ''I know React'' ''i know react'' [''kubernetes: helm'']
        (requirement_loop ''I know React'' ''i know react'' [''go, react''] ([], []))" by blast
  have l1: "requirement_loop ''I know React'' ''i know react'' [''go, react''] ([], []) =
      ([''I know React''], [])"
    by code_simp
  have l2: "requirement_loop ''I know React'' ''i know react'' [''kubernetes: helm'']
        ([''I know React''], []) = ([''I know React''], [''kubernetes: helm''])"
    by code_simp
  from T have "matchedRequirements \<lparr>title = ''Dev'', description = ''Build'',
       requirements = Some [''Go, React'', ''Kubernetes: Helm'']\<rparr> ''I know React'' = 1"
    by (simp add: scenario_split)
  with w1 w2 l1 l2 step scenario_split show ?thesis by simp
qed

subsection \<open>The keyword score\<close>

lemma keywordScore_empty:
  "requirementsArray j = [] \<Longrightarrow> keywordScore j t = NaN"
  by (simp add: keywordScore_def matchedRequirements_def totalRequirements_def
      evidence_and_missing_def jobRequirements_def)

lemma matched_bounds:
  "0 \<le> matchedRequirements j t \<and> matchedRequirements j t \<le> totalRequirements j"
proof -
  obtain es ms where em: "evidence_and_missing j t = (es, ms)" by (cases "evidence_and_missing j t")
  have "length es + length ms = length (jobRequirements j)"
    using requirement_loop_lengths [of t "toLowerCase t" "jobRequirements j" "[]" "[]"] em
    by (simp add: evidence_and_missing_def)
  then show ?thesis using em by (simp add: matchedRequirements_def totalRequirements_def)
qed

text \<open>
  C3, as stated, fails: for a job with an empty list of requirements the keyword score is
  0 / 0 * 100, which is NaN and not 0.
\<close>

theorem keyword_score_counterexample:
  "totalRequirements \<lparr>title = ''Dev'', description = ''Build'', requirements = Some []\<rparr> = 0 \<and>
   keywordScore \<lparr>title = ''Dev'', description = ''Build'', requirements = Some []\<rparr> ''resume'' = NaN \<and>
   keywordScore \<lparr>title = ''Dev'', description = ''Build'', requirements = Some []\<rparr> ''resume'' \<noteq> Num 0"
  by (simp add: keywordScore_empty requirementsArray_def totalRequirements_def jobRequirements_def)

text \<open>
  C3, amended: the matcher divides the matched count by the number of requirements without
  a guard. For every job with at least one requirement the divisor is positive, and the
  keyword score is the finite number 100 * matched / total, between 0 and 100.
\<close>

theorem keyword_score_nonempty:
  assumes "requirementsArray j \<noteq> []"
  shows "0 < totalRequirements j \<and>
         keywordScore j t =
           Num (of_int (matchedRequirements j t) / of_int (totalRequirements j) * 100) \<and>
         0 \<le> of_int (matchedRequirements j t) / of_int (totalRequirements j) * (100 :: real) \<and>
         of_int (matchedRequirements j t) / of_int (totalRequirements j) * (100 :: real) \<le> 100"
proof -
  from assms have pos: "0 < totalRequirements j"
    by (simp add: totalRequirements_def jobRequirements_def)
  from matched_bounds [of j t] pos
  have "0 \<le> of_int (matchedRequirements j t) / of_int (totalRequirements j) * (100 :: real)"
    and "of_int (matchedRequirements j t) / of_int (totalRequirements j) * (100 :: real) \<le> 100"
    by (simp_all add: field_simps)
  with pos show ?thesis by (simp add: keywordScore_def)
qed

theorem keyword_score_nonempty_witness:
  "requirementsArray \<lparr>title = ''Dev'', description = ''Build'',
       requirements = Some [''React'', ''Kubernetes'']\<rparr> \<noteq> [] \<and>
   keywordScore \<lparr>title = ''Dev'', description = ''Build'',
       requirements = Some [''React'', ''Kubernetes'']\<rparr> ''I have 5 years of React experience'' = Num 50"
  using keyword_score_nonempty [of "\<lparr>title = ''Dev'', description = ''Build'',
       requirements = Some [''React'', ''Kubernetes'']\<rparr>" "''I have 5 years of React experience''"]
  by (simp add: requirementsArray_def matchedRequirements_def totalRequirements_def
      jobRequirements_def scenario_loop)

subsection \<open>The match score\<close>

lemma combinedScore_NaN [simp]: "combinedScore NaN kw = NaN"
  by (simp add: combinedScore_def)

lemma match_score_NaN_embedding:
  "s_embedding r = replicate 384 NaN \<Longrightarrow> match_score (match_resume j r) = NaN"
  by (simp add: match_resume_def Let_def cosine_NaN_right split: prod.splits)

lemma match_score_zero_embedding:
  "s_embedding r = replicate 384 (Num 0) \<Longrightarrow> match_score (match_resume j r) = NaN"
  by (simp add: match_resume_def Let_def cosine_embedding_zero split: prod.splits)

text \<open>
  C2 fails on the code: \<open>Math.max\<close> and \<open>Math.min\<close> return NaN for a NaN argument, so the
  match score is NaN whenever the combined score is. Here the stored embedding of the
  resume is the embedding of the text \<open>#k\<close>, whose components are all NaN, or the vector
  of zeros that these components act as once they have been stored as \<open>null\<close>.
\<close>

theorem match_score_nan:
  "match_score (match_resume
      \<lparr>title = ''Dev'', description = ''Build'', requirements = Some [''React'']\<rparr>
      \<lparr>s_id = ''r1'', s_filename = ''cv.txt'', s_text = ''#k'',
       s_embedding = generateMockEmbedding ''#k'', s_user_name = ''Ann'',
       s_user_email = ''ann@example.com''\<rparr>) = NaN \<and>
   map match_score (match_job
      \<lparr>title = ''Dev'', description = ''Build'', requirements = Some [''React'']\<rparr>
      [\<lparr>s_id = ''r1'', s_filename = ''cv.txt'', s_text = ''#k'',
        s_embedding = generateMockEmbedding ''#k'', s_user_name = ''Ann'',
        s_user_email = ''ann@example.com''\<rparr>] 10) = [NaN] \<and>
   map match_score (match_job
      \<lparr>title = ''Dev'', description = ''Build'', requirements = Some [''React'']\<rparr>
      [\<lparr>s_id = ''r1'', s_filename = ''cv.txt'', s_text = ''#k'',
        s_embedding = replicate 384 (Num 0), s_user_name = ''Ann'',
        s_user_email = ''ann@example.com''\<rparr>] 10) = [NaN]"
  by (simp add: match_job_def slice0_def match_score_NaN_embedding match_score_zero_embedding
      embedding_nan [OF magnitude_k])

text \<open>Where the combined score is a finite number, the match score is within 0 and 100.\<close>

lemma match_score_bounds:
  assumes "requirementsArray j \<noteq> []"
    and "cosineSimilarity (generateMockEmbedding (jobText j)) (s_embedding r) = Num s"
  shows "\<exists>x. match_score (match_resume j r) = Num x \<and> 0 \<le> x \<and> x \<le> 100"
proof -
  from assms(1) have pos: "0 < totalRequirements j"
    by (simp add: totalRequirements_def jobRequirements_def)
  then obtain kw where kw: "keywordScore j (s_text r) = Num kw"
    by (simp add: keywordScore_def)
  obtain c where c: "combinedScore (Num s) (Num kw) = Num c" by (simp add: combinedScore_def)
  have "Math_max (Num 0) (Math_min (Num 100) (Num c)) = Num (max 0 (min 100 c))"
    by (simp add: max_def min_def)
  with assms(2) kw c show ?thesis
    by (simp add: match_resume_def Let_def split: prod.splits)
qed

section \<open>Properties of the PII scanner\<close>

text \<open>
  An escaped pattern is a sequence of literal characters, whatever the phone is, and it
  matches at a position exactly where the phone itself starts.
\<close>

lemma lex_escape:
  "lex_pattern (escape_regex p) = Inr (map (\<lambda>c. TAtom (Lit c)) p)"
proof (induction p)
  case Nil
  show ?case by (simp add: escape_regex_def)
next
  case (Cons c p)
  have tail: "escape_regex (c # p) =
      (if c \<in> set syntax_chars then [CHR 0x5C, c] else [c]) @ escape_regex p"
    by (simp add: escape_regex_def)
  show ?case
  proof (cases "c \<in> set syntax_chars")
    case True
    with Cons tail show ?thesis by simp
  next
    case False
    then have "c \<noteq> CHR 0x5C" "c \<noteq> CHR ''.''" "c \<noteq> CHR ''+''" "c \<noteq> CHR ''|''"
      by (auto simp: syntax_chars_def)
    with False Cons tail show ?thesis by simp
  qed
qed

lemma parse_literals:
  "parse_pattern (map (\<lambda>c. TAtom (Lit c)) p) = Inr [map (\<lambda>c. Atom (Lit c)) p]"
proof (induction p)
  case Nil
  show ?case by simp
next
  case (Cons c p)
  then show ?case by (cases p) simp_all
qed

lemma phone_pattern_literal:
  "RegExp (escape_regex p) = Inr (seq_of (map (\<lambda>c. Atom (Lit c)) p))"
  by (simp add: RegExp_def lex_escape parse_literals)

lemma literal_ends:
  "rx_ends (seq_of (map (\<lambda>c. Atom (Lit c)) p)) s i =
   (if take (length p) (drop i s) = p then [i + length p] else [])"
proof (induction p arbitrary: i)
  case Nil
  show ?case by simp
next
  case (Cons c p)
  show ?case
  proof (cases "i < length s \<and> s ! i = c")
    case True
    then have d: "drop i s = c # drop (Suc i) s" by (metis Cons_nth_drop_Suc)
    from True Cons [of "i + 1"] show ?thesis by (simp add: d)
  next
    case False
    have "take (length (c # p)) (drop i s) \<noteq> c # p"
    proof
      assume eq: "take (length (c # p)) (drop i s) = c # p"
      then have ne: "drop i s \<noteq> []" by auto
      then have i: "i < length s" by simp
      then have "drop i s = s ! i # drop (Suc i) s" by (metis Cons_nth_drop_Suc)
      with eq have "s ! i = c" by simp
      with i False show False by simp
    qed
    with False show ?thesis by auto
  qed
qed

text \<open>The phone path escapes its pattern, so a phone with syntax characters is replaced.\<close>

lemma redact_phone_escaped:
  "extractPII ''Call +1 (555) 123-4567 now'' =
     \<lparr>emails = Some [], phones = Some [''+1 (555) 123-4567''], names = Some []\<rparr> \<and>
   redactPII ''Call +1 (555) 123-4567 now'' (extractPII ''Call +1 (555) 123-4567 now'') =
     Inr ''Call [PHONE REDACTED] now''"
  by code_simp

text \<open>
  C4 fails on the code: the email path uses the email as the pattern without escaping it.
  In the text below the email \<open>a+b@x.co\<close> is found by \<open>extractPII\<close>; as a pattern it does
  not match itself (\<open>a+\<close> is one or more \<open>a\<close>) and it matches \<open>aab@xyco\<close>, which is not an
  occurrence of it. The email stays in the text and the other string is replaced.
\<close>

theorem redact_email_unescaped:
  "extractPII ''a+b@x.co aab@xyco'' =
     \<lparr>emails = Some [''a+b@x.co''], phones = Some [], names = Some []\<rparr> \<and>
   redactPII ''a+b@x.co aab@xyco'' (extractPII ''a+b@x.co aab@xyco'') =
     Inr ''a+b@x.co [EMAIL REDACTED]''"
  by code_simp

text \<open>
  C6 fails on the code, from the same missing escape: the dot of the email \<open>x@y.EM\<close>
  matches the bracket that opens a placeholder. The first redaction leaves \<open>x@y\<close> in front
  of a placeholder, and the second redaction replaces \<open>x@y[EM\<close>.
\<close>

theorem redact_not_idempotent:
  "extractPII ''x@y.EM x@yx@yAEM'' =
     \<lparr>emails = Some [''x@y.EM''], phones = Some [], names = Some []\<rparr> \<and>
   redactPII ''x@y.EM x@yx@yAEM'' (extractPII ''x@y.EM x@yx@yAEM'') =
     Inr ''[EMAIL REDACTED] x@y[EMAIL REDACTED]'' \<and>
   redactPII ''[EMAIL REDACTED] x@y[EMAIL REDACTED]'' (extractPII ''x@y.EM x@yx@yAEM'') =
     Inr ''[EMAIL REDACTED] [EMAIL REDACTED]AIL REDACTED]''"
  by code_simp

end
